theory Spec2Isabelle
  imports Main
begin

section \<open>Package logger\<close>

text \<open>
  The facade of \<^verbatim>\<open>logger/logger.go\<close> over the standard library's \<^verbatim>\<open>log/slog\<close>.
  A panic of the Go code is a value \<open>Inl e\<close> of a sum type; the package-level variables
  \<^verbatim>\<open>instance\<close> and \<^verbatim>\<open>once\<close> and the heap of \<^verbatim>\<open>Logger\<close> objects are an explicit state.
\<close>

text \<open>
  Go's \<^verbatim>\<open>any\<close>, as far as the code tells values apart: the type assertions of
  \<^verbatim>\<open>WithContext\<close> single out \<^verbatim>\<open>string\<close> and \<^verbatim>\<open>int\<close>, and a value of an error type
  is kept as its message.
\<close>

datatype any = ANil | AString string | AInt int | AInt64 int | ABool bool | AError string

text \<open>A panic carries a value: \<^verbatim>\<open>panic(v)\<close> is \<open>Inl (PanicValue v)\<close>.\<close>

datatype error = PanicValue any

text \<open>The runtime's panic for a method call or field read through a nil pointer or interface.\<close>

definition nil_dereference :: any where
  "nil_dereference = AError ''runtime error: invalid memory address or nil pointer dereference''"

definition NilDereference :: error where
  "NilDereference = PanicValue nil_dereference"

datatype File = Stdout | Stderr | Fd nat

record Config =
  Level :: int
  Format :: string
  AddSource :: bool
  Output :: "File option"
  TimeFormat :: string

definition LevelDebug :: int where "LevelDebug = - 4"
definition LevelInfo :: int where "LevelInfo = 0"
definition LevelWarn :: int where "LevelWarn = 4"
definition LevelError :: int where "LevelError = 8"

subsection \<open>The part of log/slog the facade touches\<close>

text \<open>
  \<^verbatim>\<open>slog.HandlerOptions\<close>: the closure stored in \<^verbatim>\<open>ReplaceAttr\<close> is determined by the
  time format it captures, \<open>None\<close> is the nil function.
\<close>

record HandlerOptions =
  opt_Level :: int
  opt_AddSource :: bool
  opt_ReplaceAttr :: "string option"

text \<open>
  A \<^verbatim>\<open>slog.Handler\<close> is kept as the term that built it: one of the two constructors
  called by \<^verbatim>\<open>Init\<close>, or a handler derived by \<^verbatim>\<open>WithAttrs\<close> or \<^verbatim>\<open>WithGroup\<close>.
\<close>

datatype Handler =
    JSONHandler File HandlerOptions
  | TextHandler File HandlerOptions
  | Handler_WithAttrs Handler "any list"
  | Handler_WithGroup Handler string

datatype slog_Logger = slog_Logger Handler

definition slog_New :: "Handler \<Rightarrow> slog_Logger" where
  "slog_New h = slog_Logger h"

fun slog_With :: "slog_Logger \<Rightarrow> any list \<Rightarrow> slog_Logger" where
  "slog_With (slog_Logger h) args =
     (if args = [] then slog_Logger h else slog_Logger (Handler_WithAttrs h args))"

fun slog_WithGroup :: "slog_Logger \<Rightarrow> string \<Rightarrow> slog_Logger" where
  "slog_WithGroup (slog_Logger h) name =
     (if name = [] then slog_Logger h else slog_Logger (Handler_WithGroup h name))"

subsection \<open>Logger objects and the package state\<close>

record Logger =
  slog :: slog_Logger
  handler :: Handler

text \<open>
  A \<^verbatim>\<open>*Logger\<close> is \<open>None\<close> (nil) or the address of an object of the store; an address is
  the index at which the object was allocated, so a new object never has the address of
  an old one.
\<close>

type_synonym Logger_ptr = "nat option"

record globals =
  instance_var :: Logger_ptr    \<comment> \<open>\<^verbatim>\<open>var instance *Logger\<close>\<close>
  once :: bool                  \<comment> \<open>whether \<^verbatim>\<open>once.Do\<close> has run its function\<close>
  store :: "Logger list"        \<comment> \<open>the \<^verbatim>\<open>Logger\<close> objects allocated so far\<close>

definition globals0 :: globals where
  "globals0 = \<lparr>instance_var = None, once = False, store = []\<rparr>"

definition alloc :: "Logger \<Rightarrow> globals \<Rightarrow> Logger_ptr \<times> globals" where
  "alloc L g = (Some (length (store g)), g\<lparr>store := store g @ [L]\<rparr>)"

fun deref :: "globals \<Rightarrow> Logger_ptr \<Rightarrow> Logger option" where
  "deref g None = None"
| "deref g (Some a) = (if a < length (store g) then Some (store g ! a) else None)"

subsection \<open>Init and GetInstance\<close>

definition default_Config :: Config where
  "default_Config =
     \<lparr>Level = LevelInfo, Format = ''text'', AddSource = False, Output = Some Stdout,
      TimeFormat = ''''\<rparr>"

text \<open>The function handed to \<^verbatim>\<open>once.Do\<close>, up to the handler it selects.\<close>

definition Init_handler :: "Config option \<Rightarrow> Handler" where
  "Init_handler conf =
     (let config = (case conf of None \<Rightarrow> default_Config | Some c \<Rightarrow> c);
          config = (if Output config = None then config\<lparr>Output := Some Stdout\<rparr> else config);
          opts = \<lparr>opt_Level = Level config, opt_AddSource = AddSource config,
                  opt_ReplaceAttr = None\<rparr>;
          opts = (if TimeFormat config \<noteq> '''' then opts\<lparr>opt_ReplaceAttr := Some (TimeFormat config)\<rparr>
                  else opts);
          out = (case Output config of None \<Rightarrow> Stdout | Some f \<Rightarrow> f)
      in if Format config = ''json'' then JSONHandler out opts else TextHandler out opts)"

definition Init :: "Config option \<Rightarrow> globals \<Rightarrow> Logger_ptr \<times> globals" where
  "Init conf g =
     (if once g then (instance_var g, g)
      else
        let h = Init_handler conf;
            (p, g') = alloc \<lparr>slog = slog_New h, handler = h\<rparr> g;
            g'' = g'\<lparr>instance_var := p, once := True\<rparr>
        in (instance_var g'', g''))"

definition GetInstance :: "globals \<Rightarrow> error + Logger_ptr" where
  "GetInstance g =
     (if instance_var g = None then Inl (PanicValue (AString ''logger not initialized''))
      else Inr (instance_var g))"

text \<open>A run of \<^verbatim>\<open>Init\<close> calls, one after the other, with the pointer each call returns.\<close>

fun Init_calls :: "Config option list \<Rightarrow> globals \<Rightarrow> Logger_ptr list \<times> globals" where
  "Init_calls [] g = ([], g)"
| "Init_calls (c # cs) g =
     (let (p, g') = Init c g; (ps, g'') = Init_calls cs g' in (p # ps, g''))"

subsection \<open>Deriving loggers\<close>

definition With :: "Logger_ptr \<Rightarrow> any list \<Rightarrow> globals \<Rightarrow> (error + Logger_ptr) \<times> globals" where
  "With l args g =
     (case deref g l of
        None \<Rightarrow> (Inl NilDereference, g)
      | Some L \<Rightarrow>
          let (p, g') = alloc \<lparr>slog = slog_With (slog L) args, handler = handler L\<rparr> g
          in (Inr p, g'))"

definition WithGroup :: "Logger_ptr \<Rightarrow> string \<Rightarrow> globals \<Rightarrow> (error + Logger_ptr) \<times> globals" where
  "WithGroup l name g =
     (case deref g l of
        None \<Rightarrow> (Inl NilDereference, g)
      | Some L \<Rightarrow>
          let (p, g') = alloc \<lparr>slog = slog_WithGroup (slog L) name, handler = handler L\<rparr> g
          in (Inr p, g'))"

text \<open>
  A \<^verbatim>\<open>context.Context\<close> is the chain of its \<^verbatim>\<open>WithValue\<close> pairs, the innermost first;
  \<^verbatim>\<open>ctx.Value(key)\<close> is nil when no pair has the key.
\<close>

type_synonym Context = "(any \<times> any) list"

definition ctx_Value :: "Context \<Rightarrow> any \<Rightarrow> any" where
  "ctx_Value c key = (case map_of c key of None \<Rightarrow> ANil | Some v \<Rightarrow> v)"

text \<open>The two type assertions, \<^verbatim>\<open>.(string)\<close> and \<^verbatim>\<open>.(int)\<close>, with their \<^verbatim>\<open>ok\<close> result.\<close>

fun assert_string :: "any \<Rightarrow> string option" where
  "assert_string (AString s) = Some s"
| "assert_string _ = None"

fun assert_int :: "any \<Rightarrow> int option" where
  "assert_int (AInt i) = Some i"
| "assert_int _ = None"

definition WithContext ::
  "Logger_ptr \<Rightarrow> Context option \<Rightarrow> globals \<Rightarrow> (error + Logger_ptr) \<times> globals" where
  "WithContext l ctx g =
     (case ctx of
        None \<Rightarrow> (Inl NilDereference, g)
      | Some c \<Rightarrow>
          let attrs = [];
              attrs = (case assert_string (ctx_Value c (AString ''request_id'')) of
                         Some reqID \<Rightarrow> attrs @ [AString ''request_id'', AString reqID]
                       | None \<Rightarrow> attrs);
              attrs = (case assert_int (ctx_Value c (AString ''user_id'')) of
                         Some userID \<Rightarrow> attrs @ [AString ''user_id'', AInt userID]
                       | None \<Rightarrow> attrs)
          in if length attrs = 0 then (Inr l, g)
             else
               (case deref g l of
                  None \<Rightarrow> (Inl NilDereference, g)
                | Some L \<Rightarrow>
                    let (p, g') = alloc \<lparr>slog = slog_With (slog L) attrs, handler = handler L\<rparr> g
                    in (Inr p, g')))"

definition Handler :: "Logger_ptr \<Rightarrow> globals \<Rightarrow> error + Handler" where
  "Handler l g = (case deref g l of None \<Rightarrow> Inl NilDereference | Some L \<Rightarrow> Inr (handler L))"

subsection \<open>Emitting records\<close>

text \<open>
  The leveled methods hand a record to \<^verbatim>\<open>l.slog\<close>. What the sink does with it (dropping it
  below the configured level, formatting, writing) is the library's; the model keeps the
  records handed over, in order.
\<close>

type_synonym log_record = "int \<times> string \<times> any list"

definition Info ::
  "Logger_ptr \<Rightarrow> globals \<Rightarrow> string \<Rightarrow> any list \<Rightarrow> log_record list
     \<Rightarrow> (error + unit) \<times> log_record list" where
  "Info l g msg args out =
     (case deref g l of
        None \<Rightarrow> (Inl NilDereference, out)
      | Some L \<Rightarrow> (Inr (), out @ [(LevelInfo, msg, args)]))"

definition Error ::
  "Logger_ptr \<Rightarrow> globals \<Rightarrow> string \<Rightarrow> any list \<Rightarrow> log_record list
     \<Rightarrow> (error + unit) \<times> log_record list" where
  "Error l g msg args out =
     (case deref g l of
        None \<Rightarrow> (Inl NilDereference, out)
      | Some L \<Rightarrow> (Inr (), out @ [(LevelError, msg, args)]))"

text \<open>\<^verbatim>\<open>Panic\<close> records at error level and then panics with the message: it never returns.\<close>

definition Panic ::
  "Logger_ptr \<Rightarrow> globals \<Rightarrow> string \<Rightarrow> any list \<Rightarrow> log_record list
     \<Rightarrow> (error + unit) \<times> log_record list" where
  "Panic l g msg args out =
     (case deref g l of
        None \<Rightarrow> (Inl NilDereference, out)
      | Some L \<Rightarrow> (Inl (PanicValue (AString msg)), out @ [(LevelError, msg, args)]))"

section \<open>Package workerpool\<close>

text \<open>
  An \<^verbatim>\<open>IWorker\<close> value is \<open>None\<close> (the nil interface) or \<open>Some w\<close>. The pool calls nothing
  but \<^verbatim>\<open>Process\<close>, whose code is the caller's: how a call ends, if it ends, is an event of
  the environment.
\<close>

datatype outcome =
    Returns_nil            \<comment> \<open>\<^verbatim>\<open>Process\<close> returned a nil error\<close>
  | Returns_err string     \<comment> \<open>\<^verbatim>\<open>Process\<close> returned the error with this message\<close>
  | Panics any             \<comment> \<open>\<^verbatim>\<open>Process\<close> panicked with this value\<close>

text \<open>
  The unbuffered \<^verbatim>\<open>chan struct{}\<close> has no content, only an identity; \<open>None\<close> is the nil
  channel, the zero value of the field.
\<close>

type_synonym chan = nat

record 'w WorkerPool =
  ctx_cancelled :: bool             \<comment> \<open>\<^verbatim>\<open>ctx\<close> and \<^verbatim>\<open>cancel\<close>: whether \<^verbatim>\<open>cancel()\<close> has been called\<close>
  wg :: int                         \<comment> \<open>the counter of the \<^verbatim>\<open>sync.WaitGroup\<close>\<close>
  logger :: Logger_ptr
  workers :: "'w option list"
  done_chan :: "chan option"        \<comment> \<open>the field \<^verbatim>\<open>done\<close>\<close>

text \<open>
  The struct literal of \<^verbatim>\<open>NewWorkerPool\<close> sets \<^verbatim>\<open>ctx\<close>, \<^verbatim>\<open>cancel\<close>, \<^verbatim>\<open>wg\<close>, \<^verbatim>\<open>logger\<close> and
  \<^verbatim>\<open>workers\<close>; \<^verbatim>\<open>done\<close> is not among them and keeps its zero value.
\<close>

definition NewWorkerPool :: "globals \<Rightarrow> (error + 'w WorkerPool) \<times> globals" where
  "NewWorkerPool g =
     (case GetInstance g of
        Inl e \<Rightarrow> (Inl e, g)
      | Inr l \<Rightarrow>
          (case WithGroup l ''worker pool'' g of
             (Inl e, g') \<Rightarrow> (Inl e, g')
           | (Inr lg, g') \<Rightarrow>
               (Inr \<lparr>ctx_cancelled = False, wg = 0, logger = lg, workers = [],
                     done_chan = None\<rparr>, g')))"

definition Register :: "'w option \<Rightarrow> 'w WorkerPool \<Rightarrow> 'w WorkerPool" where
  "Register worker p =
     (if worker = None then p else p\<lparr>workers := workers p @ [worker]\<rparr>)"

text \<open>A run of \<^verbatim>\<open>Register\<close> calls, in the order of the list.\<close>

fun Register_calls :: "'w option list \<Rightarrow> 'w WorkerPool \<Rightarrow> 'w WorkerPool" where
  "Register_calls [] p = p"
| "Register_calls (w # ws) p = Register_calls ws (Register w p)"

subsection \<open>Threads of control\<close>

text \<open>
  One call of \<^verbatim>\<open>Start\<close>, one call of \<^verbatim>\<open>Close\<close> and the goroutines that \<^verbatim>\<open>Start\<close> launches
  run interleaved. Each has a program counter; an event lets one thread take its next
  step, and leaves the state as it is when that thread is blocked. The schedules are all
  lists of events, so that a thread may also never be given its step. Each goroutine
  calls \<^verbatim>\<open>Process\<close> on the worker of the iteration that launched it.
\<close>

datatype start_pc =
    Start_idle             \<comment> \<open>\<^verbatim>\<open>Start\<close> not called yet\<close>
  | Start_range nat        \<comment> \<open>in the loop, before the iteration of this index\<close>
  | Start_Wait             \<comment> \<open>at \<^verbatim>\<open>wp.wg.Wait()\<close>\<close>
  | Start_send             \<comment> \<open>at \<^verbatim>\<open>wp.done <- struct{}{}\<close>\<close>
  | Start_returned

datatype close_pc =
    Close_idle             \<comment> \<open>\<^verbatim>\<open>Close\<close> not called yet\<close>
  | Close_cancel           \<comment> \<open>at \<^verbatim>\<open>wp.cancel()\<close>\<close>
  | Close_recv             \<comment> \<open>at \<^verbatim>\<open><-wp.done\<close>\<close>
  | Close_log_closed       \<comment> \<open>before the second \<^verbatim>\<open>Info\<close>\<close>
  | Close_returned

datatype unit_pc =
    Unit_Process           \<comment> \<open>launched, \<^verbatim>\<open>worker.Process()\<close> has not ended\<close>
  | Unit_after outcome     \<comment> \<open>\<^verbatim>\<open>Process\<close> has ended, the rest of the goroutine is to run\<close>
  | Unit_finished          \<comment> \<open>the deferred function has returned\<close>
  | Unit_panicked          \<comment> \<open>a panic has left the goroutine\<close>

record 'w sys =
  wp :: "'w WorkerPool"
  start :: start_pc
  ranged :: "'w option list"                 \<comment> \<open>the slice \<^verbatim>\<open>range\<close> evaluated, once\<close>
  units :: "('w option \<times> unit_pc) list"      \<comment> \<open>the goroutines, each with its \<^verbatim>\<open>worker\<close>\<close>
  close :: close_pc
  log_out :: "log_record list"
  crashed :: bool                            \<comment> \<open>a panic nobody recovered has ended the process\<close>

definition sys0 :: "'w WorkerPool \<Rightarrow> 'w sys" where
  "sys0 p =
     \<lparr>wp = p, start = Start_idle, ranged = [], units = [], close = Close_idle,
      log_out = [], crashed = False\<rparr>"

text \<open>
  \<^verbatim>\<open>Start\<close>, one step at a time. A send on a nil channel blocks forever; a send on an
  unbuffered channel completes together with a receive, here the one of \<^verbatim>\<open>Close\<close>.
\<close>

definition step_Start :: "'w sys \<Rightarrow> 'w sys" where
  "step_Start s =
     (case start s of
        Start_idle \<Rightarrow> s\<lparr>ranged := workers (wp s), start := Start_range 0\<rparr>
      | Start_range i \<Rightarrow>
          (if i < length (ranged s)
           then s\<lparr>wp := (wp s)\<lparr>wg := wg (wp s) + 1\<rparr>,
                  units := units s @ [(ranged s ! i, Unit_Process)],
                  start := Start_range (i + 1)\<rparr>
           else s\<lparr>start := Start_Wait\<rparr>)
      | Start_Wait \<Rightarrow> (if wg (wp s) = 0 then s\<lparr>start := Start_send\<rparr> else s)
      | Start_send \<Rightarrow>
          (case done_chan (wp s) of
             None \<Rightarrow> s
           | Some c \<Rightarrow>
               (if close s = Close_recv
                then s\<lparr>start := Start_returned, close := Close_log_closed\<rparr>
                else s))
      | Start_returned \<Rightarrow> s)"

text \<open>\<^verbatim>\<open>Close\<close>, one step at a time. A receive from a nil channel blocks forever.\<close>

definition step_Close :: "globals \<Rightarrow> 'w sys \<Rightarrow> 'w sys" where
  "step_Close g s =
     (case close s of
        Close_idle \<Rightarrow>
          (case Info (logger (wp s)) g ''worker pool closing'' [] (log_out s) of
             (Inl e, out) \<Rightarrow> s\<lparr>log_out := out, crashed := True\<rparr>
           | (Inr _, out) \<Rightarrow> s\<lparr>log_out := out, close := Close_cancel\<rparr>)
      | Close_cancel \<Rightarrow> s\<lparr>wp := (wp s)\<lparr>ctx_cancelled := True\<rparr>, close := Close_recv\<rparr>
      | Close_recv \<Rightarrow>
          (case done_chan (wp s) of
             None \<Rightarrow> s
           | Some c \<Rightarrow>
               (if start s = Start_send
                then s\<lparr>start := Start_returned, close := Close_log_closed\<rparr>
                else s))
      | Close_log_closed \<Rightarrow>
          (case Info (logger (wp s)) g ''worker pool closed'' [] (log_out s) of
             (Inl e, out) \<Rightarrow> s\<lparr>log_out := out, crashed := True\<rparr>
           | (Inr _, out) \<Rightarrow> s\<lparr>log_out := out, close := Close_returned\<rparr>)
      | Close_returned \<Rightarrow> s)"

text \<open>
  The goroutine's function after \<^verbatim>\<open>Process\<close> has ended: the body gives the panic in
  flight, if any, and the deferred function runs on it. \<^verbatim>\<open>recover()\<close> returns the value
  of the panic in flight, and nil when there is none; a panic raised by the deferred
  function itself leaves the goroutine, and \<^verbatim>\<open>wp.wg.Done()\<close> is not reached.
\<close>

definition unit_body ::
  "Logger_ptr \<Rightarrow> globals \<Rightarrow> outcome \<Rightarrow> log_record list \<Rightarrow> error option \<times> log_record list" where
  "unit_body l g oc out =
     (case oc of
        Returns_nil \<Rightarrow> (None, out)
      | Returns_err err \<Rightarrow>
          (case Error l g ''worker process err: %v'' [AError err] out of
             (Inl e, out') \<Rightarrow> (Some e, out')
           | (Inr _, out') \<Rightarrow> (None, out'))
      | Panics v \<Rightarrow> (Some (PanicValue v), out))"

fun recover :: "error option \<Rightarrow> any" where
  "recover None = ANil"
| "recover (Some (PanicValue v)) = v"

definition unit_deferred ::
  "Logger_ptr \<Rightarrow> globals \<Rightarrow> error option \<Rightarrow> int \<Rightarrow> log_record list
     \<Rightarrow> (error + int) \<times> log_record list" where
  "unit_deferred l g in_flight counter out =
     (let err = recover in_flight;
          (r, out') = (if err \<noteq> ANil then Panic l g ''panic: %v'' [err] out else (Inr (), out))
      in case r of
           Inl e \<Rightarrow> (Inl e, out')
         | Inr _ \<Rightarrow>
             (if counter - 1 < 0
              then (Inl (PanicValue (AString ''sync: negative WaitGroup counter'')), out')
              else (Inr (counter - 1), out')))"

definition step_unit :: "globals \<Rightarrow> nat \<Rightarrow> 'w sys \<Rightarrow> 'w sys" where
  "step_unit g i s =
     (if i < length (units s) then
        (case units s ! i of
           (w, Unit_after oc) \<Rightarrow>
             (let (in_flight, out) = unit_body (logger (wp s)) g oc (log_out s)
              in case unit_deferred (logger (wp s)) g in_flight (wg (wp s)) out of
                   (Inl e, out') \<Rightarrow>
                     s\<lparr>units := (units s)[i := (w, Unit_panicked)], log_out := out',
                       crashed := True\<rparr>
                 | (Inr n, out') \<Rightarrow>
                     s\<lparr>wp := (wp s)\<lparr>wg := n\<rparr>, units := (units s)[i := (w, Unit_finished)],
                       log_out := out'\<rparr>)
         | _ \<Rightarrow> s)
      else s)"

text \<open>
  The end of a \<^verbatim>\<open>Process\<close> call. A call through the nil interface can only panic; a
  panic with a nil value reaches \<^verbatim>\<open>recover\<close> as a runtime error, not as nil (so it is
  from Go 1.21 on, the release that brought \<^verbatim>\<open>log/slog\<close>).
\<close>

definition Process_ends :: "nat \<Rightarrow> outcome \<Rightarrow> 'w sys \<Rightarrow> 'w sys" where
  "Process_ends i oc s =
     (if i < length (units s) then
        (case units s ! i of
           (w, Unit_Process) \<Rightarrow>
             (let oc' = (if w = None then Panics nil_dereference
                         else if oc = Panics ANil
                         then Panics (AError ''panic called with nil argument (obsolete)'')
                         else oc)
              in s\<lparr>units := (units s)[i := (w, Unit_after oc')]\<rparr>)
         | _ \<Rightarrow> s)
      else s)"

datatype 'w event =
    Ev_Register "'w option"        \<comment> \<open>a call of \<^verbatim>\<open>Register\<close>\<close>
  | Ev_Start                       \<comment> \<open>the thread in \<^verbatim>\<open>Start\<close> moves\<close>
  | Ev_Close                       \<comment> \<open>the thread in \<^verbatim>\<open>Close\<close> moves\<close>
  | Ev_Process_ends nat outcome    \<comment> \<open>the \<^verbatim>\<open>Process\<close> call of a goroutine ends\<close>
  | Ev_unit nat                    \<comment> \<open>a goroutine whose \<^verbatim>\<open>Process\<close> has ended moves\<close>

text \<open>
  A panic that leaves a goroutine ends the process, and nothing moves after that.
  \<^verbatim>\<open>Register\<close> may be called at any time, as the source allows.
\<close>

definition step :: "globals \<Rightarrow> 'w event \<Rightarrow> 'w sys \<Rightarrow> 'w sys" where
  "step g ev s =
     (if crashed s then s
      else case ev of
             Ev_Register w \<Rightarrow> s\<lparr>wp := Register w (wp s)\<rparr>
           | Ev_Start \<Rightarrow> step_Start s
           | Ev_Close \<Rightarrow> step_Close g s
           | Ev_Process_ends i oc \<Rightarrow> Process_ends i oc s
           | Ev_unit i \<Rightarrow> step_unit g i s)"

fun run :: "globals \<Rightarrow> 'w event list \<Rightarrow> 'w sys \<Rightarrow> 'w sys" where
  "run g [] s = s"
| "run g (ev # evs) s = run g evs (step g ev s)"

subsection \<open>Counting the goroutines that have not finished\<close>

text \<open>
  Two notions used to state what the wait group guarantees: the number of goroutines
  launched and not yet finished, and \<^verbatim>\<open>Start\<close> being past \<^verbatim>\<open>wp.wg.Wait()\<close>.
\<close>

definition unfinished :: "('w option \<times> unit_pc) list \<Rightarrow> nat" where
  "unfinished us = length (filter (\<lambda>u. snd u \<noteq> Unit_finished) us)"

definition past_Wait :: "start_pc \<Rightarrow> bool" where
  "past_Wait pc = (pc = Start_send \<or> pc = Start_returned)"

section \<open>Properties of the logger\<close>

subsection \<open>The singleton\<close>

lemma Init_done: "once g \<Longrightarrow> Init c g = (instance_var g, g)"
  by (simp add: Init_def)

lemma Init_first:
  "\<not> once g \<Longrightarrow>
     Init c g =
       (Some (length (store g)),
        g\<lparr>store := store g @ [\<lparr>slog = slog_New (Init_handler c), handler = Init_handler c\<rparr>],
          instance_var := Some (length (store g)), once := True\<rparr>)"
  by (simp add: Init_def alloc_def Let_def)

lemma Init_calls_done:
  "once g \<Longrightarrow> Init_calls cs g = (replicate (length cs) (instance_var g), g)"
  by (induction cs) (simp_all add: Init_done)

lemma Init_calls_globals0:
  "Init_calls (c # cs) globals0 =
     (replicate (Suc (length cs)) (Some 0),
      \<lparr>instance_var = Some 0, once = True,
       store = [\<lparr>slog = slog_New (Init_handler c), handler = Init_handler c\<rparr>]\<rparr>)"
proof -
  have "\<not> once globals0" by (simp add: globals0_def)
  then show ?thesis
    by (simp add: Init_first Init_calls_done globals0_def)
qed

lemma Init_None_globals0:
  "Init None globals0 =
     (Some 0,
      \<lparr>instance_var = Some 0, once = True,
       store = [\<lparr>slog = slog_New (Init_handler None), handler = Init_handler None\<rparr>]\<rparr>)"
  using Init_first [of globals0 None] by (simp add: globals0_def)

lemma Init_handler_Some:
  "Init_handler (Some cfg) =
     (if Format cfg = ''json''
      then JSONHandler (case Output cfg of None \<Rightarrow> Stdout | Some f \<Rightarrow> f)
             \<lparr>opt_Level = Level cfg, opt_AddSource = AddSource cfg,
              opt_ReplaceAttr = (if TimeFormat cfg = '''' then None else Some (TimeFormat cfg))\<rparr>
      else TextHandler (case Output cfg of None \<Rightarrow> Stdout | Some f \<Rightarrow> f)
             \<lparr>opt_Level = Level cfg, opt_AddSource = AddSource cfg,
              opt_ReplaceAttr = (if TimeFormat cfg = '''' then None else Some (TimeFormat cfg))\<rparr>)"
  by (simp add: Init_handler_def Let_def split: option.splits)

lemma Init_handler_None:
  "Init_handler None =
     TextHandler Stdout \<lparr>opt_Level = LevelInfo, opt_AddSource = False, opt_ReplaceAttr = None\<rparr>"
  by (simp add: Init_handler_def default_Config_def)

text \<open>
  C6. In a fresh process, a first call \<open>Init c\<close> followed by any further calls, whatever
  their arguments (\<open>None\<close> is the nil configuration), returns the same pointer every
  time, and leaves one \<open>Logger\<close> in the store, the one built from \<open>c\<close>. From any state,
  a second call returns what the first returned and changes nothing. The logger that
  stays is configured by the first call alone: for a first configuration \<open>cfg\<close> its
  handler is the JSON handler when \<open>Format cfg\<close> is \<open>''json''\<close> and the text handler
  otherwise, it writes to \<open>Output cfg\<close>, or to standard output when that is nil, its
  options carry \<open>Level cfg\<close> and \<open>AddSource cfg\<close>, and the time is rewritten with
  \<open>TimeFormat cfg\<close> when that is not empty; for a nil first configuration it is the text
  handler on standard output at info level, without source and without time format.
\<close>

theorem Init_idempotent:
  "Init_calls (c # cs) globals0 =
     (replicate (Suc (length cs)) (Some 0),
      \<lparr>instance_var = Some 0, once = True,
       store = [\<lparr>slog = slog_New (Init_handler c), handler = Init_handler c\<rparr>]\<rparr>)
   \<and> Init c2 (snd (Init c1 g)) = (fst (Init c1 g), snd (Init c1 g))
   \<and> store (snd (Init_calls (Some cfg # cs) globals0)) =
       [\<lparr>slog = slog_New
            (if Format cfg = ''json''
             then JSONHandler (case Output cfg of None \<Rightarrow> Stdout | Some f \<Rightarrow> f)
                    \<lparr>opt_Level = Level cfg, opt_AddSource = AddSource cfg,
                     opt_ReplaceAttr =
                       (if TimeFormat cfg = '''' then None else Some (TimeFormat cfg))\<rparr>
             else TextHandler (case Output cfg of None \<Rightarrow> Stdout | Some f \<Rightarrow> f)
                    \<lparr>opt_Level = Level cfg, opt_AddSource = AddSource cfg,
                     opt_ReplaceAttr =
                       (if TimeFormat cfg = '''' then None else Some (TimeFormat cfg))\<rparr>),
         handler =
            (if Format cfg = ''json''
             then JSONHandler (case Output cfg of None \<Rightarrow> Stdout | Some f \<Rightarrow> f)
                    \<lparr>opt_Level = Level cfg, opt_AddSource = AddSource cfg,
                     opt_ReplaceAttr =
                       (if TimeFormat cfg = '''' then None else Some (TimeFormat cfg))\<rparr>
             else TextHandler (case Output cfg of None \<Rightarrow> Stdout | Some f \<Rightarrow> f)
                    \<lparr>opt_Level = Level cfg, opt_AddSource = AddSource cfg,
                     opt_ReplaceAttr =
                       (if TimeFormat cfg = '''' then None else Some (TimeFormat cfg))\<rparr>)\<rparr>]
   \<and> store (snd (Init_calls (None # cs) globals0)) =
       [\<lparr>slog = slog_New (TextHandler Stdout
                  \<lparr>opt_Level = LevelInfo, opt_AddSource = False, opt_ReplaceAttr = None\<rparr>),
         handler = TextHandler Stdout
                  \<lparr>opt_Level = LevelInfo, opt_AddSource = False, opt_ReplaceAttr = None\<rparr>\<rparr>]"
proof -
  have a: "Init_calls (c # cs) globals0 =
     (replicate (Suc (length cs)) (Some 0),
      \<lparr>instance_var = Some 0, once = True,
       store = [\<lparr>slog = slog_New (Init_handler c), handler = Init_handler c\<rparr>]\<rparr>)"
    by (rule Init_calls_globals0)
  have b: "Init c2 (snd (Init c1 g)) = (fst (Init c1 g), snd (Init c1 g))"
    by (cases "once g") (simp_all add: Init_done Init_first)
  have s: "store (snd (Init_calls (d # cs) globals0)) =
      [\<lparr>slog = slog_New (Init_handler d), handler = Init_handler d\<rparr>]" for d
    unfolding Init_calls_globals0 by simp
  show ?thesis
    unfolding s Init_handler_Some Init_handler_None using a b by simp
qed

text \<open>
  An instance: a first call asking for JSON on standard error at warn level with a time
  format, then a call with the nil configuration. The logger is the first call's.
\<close>

lemma Init_first_configuration_example:
  "Init_calls
     [Some \<lparr>Level = LevelWarn, Format = ''json'', AddSource = True, Output = Some Stderr,
            TimeFormat = ''15:04:05''\<rparr>, None] globals0 =
     ([Some 0, Some 0],
      \<lparr>instance_var = Some 0, once = True,
       store =
         [\<lparr>slog = slog_Logger (JSONHandler Stderr
                   \<lparr>opt_Level = 4, opt_AddSource = True, opt_ReplaceAttr = Some ''15:04:05''\<rparr>),
           handler = JSONHandler Stderr
                   \<lparr>opt_Level = 4, opt_AddSource = True, opt_ReplaceAttr = Some ''15:04:05''\<rparr>\<rparr>]\<rparr>)"
  unfolding Init_calls_globals0
  by (simp add: Init_handler_def slog_New_def LevelWarn_def)

text \<open>
  C7. In a fresh process, where \<open>Init\<close> has not been called, \<open>GetInstance\<close> panics with
  the message and returns no pointer. After one or more calls of \<open>Init\<close> it returns the
  pointer that every one of these calls returned, which points to the logger built by
  the first call.
\<close>

theorem GetInstance_spec:
  "GetInstance globals0 = Inl (PanicValue (AString ''logger not initialized''))
   \<and> GetInstance (snd (Init_calls (c # cs) globals0)) = Inr (Some 0)
   \<and> fst (Init_calls (c # cs) globals0) = replicate (Suc (length cs)) (Some 0)
   \<and> deref (snd (Init_calls (c # cs) globals0)) (Some 0)
       = Some \<lparr>slog = slog_New (Init_handler c), handler = Init_handler c\<rparr>"
  unfolding Init_calls_globals0 by (simp add: GetInstance_def globals0_def)

subsection \<open>Derived loggers\<close>

lemma deref_SomeD: "deref g l = Some L \<Longrightarrow> \<exists>a. l = Some a \<and> a < length (store g) \<and> store g ! a = L"
  by (cases l) (auto split: if_splits)

lemma deref_alloc_old:
  "deref g l = Some L \<Longrightarrow> deref (g\<lparr>store := store g @ [M]\<rparr>) l = Some L"
  by (cases l) (auto split: if_splits simp: nth_append)

text \<open>
  C8. For a receiver that points to a logger and a context that is not nil: when the
  context has a string under \<open>''request_id''\<close> or an \<open>int\<close> under \<open>''user_id''\<close>,
  \<open>WithContext\<close> allocates a new logger, at an address different from the receiver's,
  whose \<open>slog\<close> is the receiver's with the values that are present attached, the request
  identifier first; when neither is there with that type, it returns the receiver's own
  pointer and allocates nothing.
\<close>

theorem WithContext_spec:
  assumes "deref g l = Some L"
  shows
    "(ctx_Value c (AString ''request_id'') = AString r \<and> ctx_Value c (AString ''user_id'') = AInt u \<longrightarrow>
        WithContext l (Some c) g =
          (Inr (Some (length (store g))),
           g\<lparr>store := store g @
               [\<lparr>slog = slog_With (slog L)
                          [AString ''request_id'', AString r, AString ''user_id'', AInt u],
                 handler = handler L\<rparr>]\<rparr>))
   \<and> (ctx_Value c (AString ''request_id'') = AString r \<and> (\<forall>i. ctx_Value c (AString ''user_id'') \<noteq> AInt i) \<longrightarrow>
        WithContext l (Some c) g =
          (Inr (Some (length (store g))),
           g\<lparr>store := store g @
               [\<lparr>slog = slog_With (slog L) [AString ''request_id'', AString r],
                 handler = handler L\<rparr>]\<rparr>))
   \<and> ((\<forall>s. ctx_Value c (AString ''request_id'') \<noteq> AString s) \<and> ctx_Value c (AString ''user_id'') = AInt u \<longrightarrow>
        WithContext l (Some c) g =
          (Inr (Some (length (store g))),
           g\<lparr>store := store g @
               [\<lparr>slog = slog_With (slog L) [AString ''user_id'', AInt u],
                 handler = handler L\<rparr>]\<rparr>))
   \<and> ((\<forall>s. ctx_Value c (AString ''request_id'') \<noteq> AString s) \<and> (\<forall>i. ctx_Value c (AString ''user_id'') \<noteq> AInt i) \<longrightarrow>
        WithContext l (Some c) g = (Inr l, g))
   \<and> Some (length (store g)) \<noteq> l
   \<and> deref g (Some (length (store g))) = None"
proof -
  have s: "(\<forall>s. v \<noteq> AString s) \<Longrightarrow> assert_string v = None" for v by (cases v) auto
  have i: "(\<forall>i. v \<noteq> AInt i) \<Longrightarrow> assert_int v = None" for v by (cases v) auto
  from assms have "Some (length (store g)) \<noteq> l" by (auto dest: deref_SomeD)
  with assms s i show ?thesis
    by (auto simp: WithContext_def alloc_def Let_def)
qed

theorem WithContext_spec_witness:
  "deref (snd (Init None globals0)) (Some 0)
     = Some \<lparr>slog = slog_New (Init_handler None), handler = Init_handler None\<rparr>
   \<and> WithContext (Some 0)
        (Some [(AString ''request_id'', AString ''r1''), (AString ''user_id'', AInt 7)])
        (snd (Init None globals0))
      = (Inr (Some 1),
         (snd (Init None globals0))
           \<lparr>store := store (snd (Init None globals0)) @
              [\<lparr>slog = slog_With (slog_New (Init_handler None))
                         [AString ''request_id'', AString ''r1'', AString ''user_id'', AInt 7],
                handler = Init_handler None\<rparr>]\<rparr>)
   \<and> WithContext (Some 0) (Some [(AString ''user_id'', AInt64 7)]) (snd (Init None globals0))
      = (Inr (Some 0), snd (Init None globals0))"
proof -
  let ?G = "snd (Init None globals0)"
  let ?L = "\<lparr>slog = slog_New (Init_handler None), handler = Init_handler None\<rparr>"
  have d: "deref ?G (Some 0) = Some ?L"
    by (simp add: Init_None_globals0)
  have v1: "ctx_Value [(AString ''request_id'', AString ''r1''), (AString ''user_id'', AInt 7)]
              (AString ''request_id'') = AString ''r1''"
    and v2: "ctx_Value [(AString ''request_id'', AString ''r1''), (AString ''user_id'', AInt 7)]
              (AString ''user_id'') = AInt 7"
    and v3: "ctx_Value [(AString ''user_id'', AInt64 7)] (AString ''request_id'') = ANil"
    and v4: "ctx_Value [(AString ''user_id'', AInt64 7)] (AString ''user_id'') = AInt64 7"
    by (simp_all add: ctx_Value_def)
  have l: "length (store ?G) = 1" by (simp add: Init_None_globals0)
  show ?thesis
    using d
      WithContext_spec [OF d, of
        "[(AString ''request_id'', AString ''r1''), (AString ''user_id'', AInt 7)]" "''r1''" 7]
      WithContext_spec [OF d, of "[(AString ''user_id'', AInt64 7)]" "''''" 0]
    by (simp add: v1 v2 v3 v4 l)
qed

text \<open>
  C9. For a receiver that points to a logger \<open>L\<close>, each of \<open>With\<close>, \<open>WithGroup\<close> and
  \<open>WithContext\<close> (on a context that is not nil) returns a pointer whose \<open>Handler\<close> is
  the handler of \<open>L\<close>, the receiver still points to \<open>L\<close> afterwards, and no object that
  was in the store has changed.
\<close>

theorem derivations_keep_handler:
  assumes "deref g l = Some L"
  shows
    "Handler l g = Inr (handler L)
   \<and> (\<exists>p g'. With l args g = (Inr p, g') \<and> Handler p g' = Inr (handler L)
              \<and> deref g' l = Some L \<and> take (length (store g)) (store g') = store g)
   \<and> (\<exists>p g'. WithGroup l name g = (Inr p, g') \<and> Handler p g' = Inr (handler L)
              \<and> deref g' l = Some L \<and> take (length (store g)) (store g') = store g)
   \<and> (\<exists>p g'. WithContext l (Some c) g = (Inr p, g') \<and> Handler p g' = Inr (handler L)
              \<and> deref g' l = Some L \<and> take (length (store g)) (store g') = store g)"
proof -
  have h: "Handler l g = Inr (handler L)" using assms by (simp add: Handler_def)
  have w: "\<exists>p g'. With l args g = (Inr p, g') \<and> Handler p g' = Inr (handler L)
              \<and> deref g' l = Some L \<and> take (length (store g)) (store g') = store g"
    using assms by (simp add: With_def alloc_def Handler_def deref_alloc_old)
  have wg: "\<exists>p g'. WithGroup l name g = (Inr p, g') \<and> Handler p g' = Inr (handler L)
              \<and> deref g' l = Some L \<and> take (length (store g)) (store g') = store g"
    using assms by (simp add: WithGroup_def alloc_def Handler_def deref_alloc_old)
  have wc: "\<exists>p g'. WithContext l (Some c) g = (Inr p, g') \<and> Handler p g' = Inr (handler L)
              \<and> deref g' l = Some L \<and> take (length (store g)) (store g') = store g"
    using assms
    by (simp add: WithContext_def alloc_def Handler_def deref_alloc_old Let_def
             split: option.splits)
  from h w wg wc show ?thesis by blast
qed

theorem derivations_keep_handler_witness:
  "deref (snd (Init None globals0)) (Some 0)
     = Some \<lparr>slog = slog_New (Init_handler None), handler = Init_handler None\<rparr>
   \<and> Handler (Some 0) (snd (Init None globals0)) = Inr (Init_handler None)
   \<and> (\<exists>p g'. With (Some 0) [AString ''k'', AInt 1] (snd (Init None globals0)) = (Inr p, g')
         \<and> Handler p g' = Inr (Init_handler None))
   \<and> (\<exists>p g'. WithGroup (Some 0) ''worker pool'' (snd (Init None globals0)) = (Inr p, g')
         \<and> Handler p g' = Inr (Init_handler None))
   \<and> (\<exists>p g'. WithContext (Some 0) (Some [(AString ''user_id'', AInt 7)])
                (snd (Init None globals0)) = (Inr p, g')
         \<and> Handler p g' = Inr (Init_handler None))"
proof -
  let ?G = "snd (Init None globals0)"
  let ?L = "\<lparr>slog = slog_New (Init_handler None), handler = Init_handler None\<rparr>"
  have d: "deref ?G (Some 0) = Some ?L"
    by (simp add: Init_None_globals0)
  show ?thesis
    using d derivations_keep_handler [OF d, of "[AString ''k'', AInt 1]" "''worker pool''"
        "[(AString ''user_id'', AInt 7)]"]
    by auto
qed

section \<open>Properties of the worker pool\<close>

subsection \<open>Construction and registration\<close>

lemma NewWorkerPool_Inr:
  assumes "NewWorkerPool g = (Inr p, g')"
  shows "workers p = []" and "done_chan p = None" and "wg p = 0" and "\<not> ctx_cancelled p"
    and "\<exists>L. deref g' (logger p) = Some L"
  using assms
  by (auto simp: NewWorkerPool_def WithGroup_def alloc_def
           split: sum.splits option.splits prod.splits)

lemma Register_calls_workers:
  "workers (Register_calls ws p) = workers p @ filter (\<lambda>w. w \<noteq> None) ws"
  by (induction ws arbitrary: p) (simp_all add: Register_def)

lemma NewWorkerPool_Init_None:
  "NewWorkerPool (snd (Init None globals0)) =
     (Inr \<lparr>ctx_cancelled = False, wg = 0, logger = Some 1, workers = [], done_chan = None\<rparr>,
      \<lparr>instance_var = Some 0, once = True,
       store = [\<lparr>slog = slog_New (Init_handler None), handler = Init_handler None\<rparr>,
                \<lparr>slog = slog_WithGroup (slog_New (Init_handler None)) ''worker pool'',
                 handler = Init_handler None\<rparr>]\<rparr>)"
  by (simp add: Init_None_globals0 NewWorkerPool_def GetInstance_def WithGroup_def alloc_def)

text \<open>
  C4. A pool returned by \<open>NewWorkerPool\<close> has no workers. \<open>Register\<close> with the nil
  worker returns the pool as it was, \<open>Register\<close> with any other worker appends it, and
  after a run of \<open>Register\<close> calls the list is the arguments that were not nil, in the
  order of the calls; its length is their number.
\<close>

theorem Register_calls_spec:
  assumes "NewWorkerPool g = (Inr p, g')"
  shows "workers p = []
       \<and> workers (Register_calls ws p) = filter (\<lambda>w. w \<noteq> None) ws
       \<and> length (workers (Register_calls ws p)) = length (filter (\<lambda>w. w \<noteq> None) ws)
       \<and> Register None q = q
       \<and> Register (Some w) q = q\<lparr>workers := workers q @ [Some w]\<rparr>"
  using NewWorkerPool_Inr(1) [OF assms]
  by (simp add: Register_calls_workers Register_def)

theorem Register_calls_spec_witness:
  "fst (NewWorkerPool (snd (Init None globals0)))
     = Inr \<lparr>ctx_cancelled = False, wg = 0, logger = Some 1, workers = [], done_chan = None\<rparr>
   \<and> workers (Register_calls [Some (1::nat), None, Some 2, None]
        \<lparr>ctx_cancelled = False, wg = 0, logger = Some 1, workers = [], done_chan = None\<rparr>)
     = [Some 1, Some 2]"
  using Register_calls_spec [OF NewWorkerPool_Init_None,
      where ws = "[Some (1::nat), None, Some 2, None]"
        and q = "\<lparr>ctx_cancelled = False, wg = 0, logger = Some 1, workers = [], done_chan = None\<rparr>"
        and w = "1::nat"]
  by (simp add: NewWorkerPool_Init_None Register_def)

text \<open>
  C5, as stated, fails: registering the worker \<open>1\<close> twice on a new pool gives a list that
  holds it twice.
\<close>

theorem Register_duplicate_counterexample:
  "fst (NewWorkerPool (snd (Init None globals0)))
     = Inr \<lparr>ctx_cancelled = False, wg = 0, logger = Some 1, workers = [], done_chan = None\<rparr>
   \<and> workers (Register (Some (1::nat))
        \<lparr>ctx_cancelled = False, wg = 0, logger = Some 1, workers = [], done_chan = None\<rparr>)
     = [Some 1]
   \<and> workers (Register (Some (1::nat)) (Register (Some 1)
        \<lparr>ctx_cancelled = False, wg = 0, logger = Some 1, workers = [], done_chan = None\<rparr>))
     = [Some 1, Some 1]
   \<and> \<not> distinct (workers (Register (Some (1::nat)) (Register (Some 1)
        \<lparr>ctx_cancelled = False, wg = 0, logger = Some 1, workers = [], done_chan = None\<rparr>)))"
  by (simp add: NewWorkerPool_Init_None Register_def)

text \<open>
  C5, amended. \<open>Register\<close> rejects the nil worker only: for a worker already in the
  list, \<open>Register\<close> appends it once more, so that the list holds it one more time than
  before and is not free of duplicates.
\<close>

theorem Register_accepts_duplicate:
  assumes "Some w \<in> set (workers p)"
  shows "workers (Register (Some w) p) = workers p @ [Some w]
       \<and> count_list (workers (Register (Some w) p)) (Some w)
           = count_list (workers p) (Some w) + 1
       \<and> \<not> distinct (workers (Register (Some w) p))"
  using assms by (simp add: Register_def)

theorem Register_accepts_duplicate_witness:
  "Some (1::nat) \<in> set (workers
      \<lparr>ctx_cancelled = False, wg = 0, logger = Some 1, workers = [Some 1], done_chan = None\<rparr>)
   \<and> workers (Register (Some (1::nat))
        \<lparr>ctx_cancelled = False, wg = 0, logger = Some 1, workers = [Some 1], done_chan = None\<rparr>)
     = [Some 1, Some 1]"
proof -
  have h: "Some (1::nat) \<in> set (workers
      \<lparr>ctx_cancelled = False, wg = 0, logger = Some 1, workers = [Some 1], done_chan = None\<rparr>)"
    by simp
  show ?thesis using h Register_accepts_duplicate [OF h] by simp
qed

subsection \<open>What no schedule changes\<close>

lemma run_crashed: "crashed s \<Longrightarrow> run g evs s = s"
  by (induction evs) (simp_all add: step_def)

lemma run_append: "run g (xs @ ys) s = run g ys (run g xs s)"
  by (induction xs arbitrary: s) simp_all

lemma step_Start_workers: "workers (wp (step_Start s)) = workers (wp s)"
  by (simp add: step_Start_def split: start_pc.splits option.splits)

lemma step_Close_workers: "workers (wp (step_Close g s)) = workers (wp s)"
  by (simp add: step_Close_def split: close_pc.splits option.splits prod.splits sum.splits)

lemma step_unit_workers: "workers (wp (step_unit g i s)) = workers (wp s)"
  by (simp add: step_unit_def Let_def split: prod.splits unit_pc.splits sum.splits)

lemma Process_ends_workers: "workers (wp (Process_ends i oc s)) = workers (wp s)"
  by (simp add: Process_ends_def Let_def split: prod.splits unit_pc.splits)

lemma step_workers:
  "workers (wp (step g ev s)) =
     (if crashed s then workers (wp s)
      else case ev of Ev_Register w \<Rightarrow> workers (Register w (wp s)) | _ \<Rightarrow> workers (wp s))"
  by (simp add: step_def step_Start_workers step_Close_workers step_unit_workers
        Process_ends_workers split: event.splits)

lemma step_no_nil:
  "None \<notin> set (workers (wp s)) \<Longrightarrow> None \<notin> set (workers (wp (step g ev s)))"
  by (auto simp: step_workers Register_def split: event.splits)

lemma run_no_nil:
  "None \<notin> set (workers (wp s)) \<Longrightarrow> None \<notin> set (workers (wp (run g evs s)))"
  by (induction evs arbitrary: s) (simp_all add: step_no_nil)

text \<open>
  C10. The list of a pool returned by \<open>NewWorkerPool\<close> is empty, and neither a run of
  \<open>Register\<close> calls nor any schedule of \<open>Register\<close> calls and steps of \<open>Start\<close>, \<open>Close\<close>
  and the goroutines puts the nil worker into it.
\<close>

theorem workers_never_nil:
  assumes "NewWorkerPool g = (Inr p, g')"
  shows "workers p = [] \<and> None \<notin> set (workers (wp (run g' evs (sys0 p))))
       \<and> None \<notin> set (workers (Register_calls ws p))"
proof -
  have e: "workers p = []" by (rule NewWorkerPool_Inr(1) [OF assms])
  then have "None \<notin> set (workers (wp (sys0 p)))" by (simp add: sys0_def)
  then have "None \<notin> set (workers (wp (run g' evs (sys0 p))))" by (rule run_no_nil)
  moreover have "None \<notin> set (workers (Register_calls ws p))"
    by (simp add: Register_calls_workers e)
  ultimately show ?thesis using e by simp
qed

theorem workers_never_nil_witness:
  "NewWorkerPool (snd (Init None globals0)) =
     (Inr (\<lparr>ctx_cancelled = False, wg = 0, logger = Some 1, workers = [], done_chan = None\<rparr>
             :: nat WorkerPool), \<lparr>instance_var = Some 0, once = True,
       store = [\<lparr>slog = slog_New (Init_handler None), handler = Init_handler None\<rparr>,
                \<lparr>slog = slog_WithGroup (slog_New (Init_handler None)) ''worker pool'',
                 handler = Init_handler None\<rparr>]\<rparr>)
   \<and> workers (wp (run \<lparr>instance_var = Some 0, once = True,
       store = [\<lparr>slog = slog_New (Init_handler None), handler = Init_handler None\<rparr>,
                \<lparr>slog = slog_WithGroup (slog_New (Init_handler None)) ''worker pool'',
                 handler = Init_handler None\<rparr>]\<rparr>
        [Ev_Register None, Ev_Register (Some 1), Ev_Start, Ev_Register None, Ev_Start]
        (sys0 (\<lparr>ctx_cancelled = False, wg = 0, logger = Some 1, workers = [], done_chan = None\<rparr>
                 :: nat WorkerPool))))
      = [Some 1]
   \<and> None \<notin> set (workers (wp (run \<lparr>instance_var = Some 0, once = True,
       store = [\<lparr>slog = slog_New (Init_handler None), handler = Init_handler None\<rparr>,
                \<lparr>slog = slog_WithGroup (slog_New (Init_handler None)) ''worker pool'',
                 handler = Init_handler None\<rparr>]\<rparr>
        [Ev_Register None, Ev_Register (Some 1), Ev_Start, Ev_Register None, Ev_Start]
        (sys0 (\<lparr>ctx_cancelled = False, wg = 0, logger = Some 1, workers = [], done_chan = None\<rparr>
                 :: nat WorkerPool)))))"
  using workers_never_nil [OF NewWorkerPool_Init_None,
      where evs = "[Ev_Register None, Ev_Register (Some 1), Ev_Start, Ev_Register None, Ev_Start]
                     :: nat event list"
        and ws = "[]"]
  by (simp add: NewWorkerPool_Init_None step_def step_Start_def Register_def sys0_def)

subsection \<open>The nil channel\<close>

text \<open>
  While \<open>done_chan\<close> is nil, \<open>Start\<close> has not returned and \<open>Close\<close> has not passed its
  receive, no step changes any of this.
\<close>

lemma step_Start_nil_done:
  assumes "done_chan (wp s) = None" "start s \<noteq> Start_returned"
  shows "done_chan (wp (step_Start s)) = None" "start (step_Start s) \<noteq> Start_returned"
    "close (step_Start s) = close s" "log_out (step_Start s) = log_out s"
  using assms by (simp_all add: step_Start_def split: start_pc.splits)

lemma step_Close_nil_done:
  assumes "done_chan (wp s) = None" "close s \<noteq> Close_log_closed" "close s \<noteq> Close_returned"
    "(LevelInfo, ''worker pool closed'', []) \<notin> set (log_out s)"
  shows "done_chan (wp (step_Close g s)) = None" "start (step_Close g s) = start s"
    "close (step_Close g s) \<noteq> Close_log_closed" "close (step_Close g s) \<noteq> Close_returned"
    "(LevelInfo, ''worker pool closed'', []) \<notin> set (log_out (step_Close g s))"
  using assms
  by (auto simp: step_Close_def Info_def split: close_pc.splits option.splits)

lemma unit_body_log:
  "unit_body l g oc out = (r, out') \<Longrightarrow> set out' \<subseteq> set out \<union> {(LevelError, ''worker process err: %v'', [AError e]) | e. True}"
  by (auto simp: unit_body_def Error_def split: outcome.splits option.splits)

lemma unit_deferred_log:
  "unit_deferred l g r n out = (x, out') \<Longrightarrow> set out' \<subseteq> set out \<union> {(LevelError, ''panic: %v'', [v]) | v. True}"
  by (auto simp: unit_deferred_def Panic_def Let_def split: if_splits option.splits sum.splits prod.splits)

lemma step_unit_nil_done:
  "done_chan (wp (step_unit g i s)) = done_chan (wp s)"
  "start (step_unit g i s) = start s"
  "close (step_unit g i s) = close s"
  by (simp_all add: step_unit_def Let_def split: prod.splits unit_pc.splits sum.splits)

lemma step_unit_log:
  assumes "(LevelInfo, ''worker pool closed'', []) \<notin> set (log_out s)"
  shows "(LevelInfo, ''worker pool closed'', []) \<notin> set (log_out (step_unit g i s))"
proof -
  have ne: "LevelInfo \<noteq> LevelError" by (simp add: LevelInfo_def LevelError_def)
  show ?thesis
    using assms ne
    by (auto simp: step_unit_def Let_def split: prod.splits unit_pc.splits sum.splits
        dest!: unit_body_log unit_deferred_log)
qed

lemma Process_ends_nil_done:
  "done_chan (wp (Process_ends i oc s)) = done_chan (wp s)"
  "start (Process_ends i oc s) = start s"
  "close (Process_ends i oc s) = close s"
  "log_out (Process_ends i oc s) = log_out s"
  by (simp_all add: Process_ends_def Let_def split: prod.splits unit_pc.splits)

lemma step_nil_done:
  assumes "done_chan (wp s) = None" "start s \<noteq> Start_returned"
    "close s \<noteq> Close_log_closed" "close s \<noteq> Close_returned"
    "(LevelInfo, ''worker pool closed'', []) \<notin> set (log_out s)"
  shows "done_chan (wp (step g ev s)) = None \<and> start (step g ev s) \<noteq> Start_returned
       \<and> close (step g ev s) \<noteq> Close_log_closed \<and> close (step g ev s) \<noteq> Close_returned
       \<and> (LevelInfo, ''worker pool closed'', []) \<notin> set (log_out (step g ev s))"
proof (cases "crashed s")
  case True
  with assms show ?thesis by (simp add: step_def)
next
  case False
  show ?thesis
  proof (cases ev)
    case (Ev_Register w)
    with False assms show ?thesis by (simp add: step_def Register_def)
  next
    case Ev_Start
    with False assms step_Start_nil_done [of s] show ?thesis by (simp add: step_def)
  next
    case Ev_Close
    with False assms step_Close_nil_done [of s g] show ?thesis by (simp add: step_def)
  next
    case (Ev_Process_ends i oc)
    with False assms show ?thesis by (simp add: step_def Process_ends_nil_done)
  next
    case (Ev_unit i)
    with False assms step_unit_log [of s g i] show ?thesis
      by (simp add: step_def step_unit_nil_done)
  qed
qed

lemma run_nil_done:
  assumes "done_chan (wp s) = None" "start s \<noteq> Start_returned"
    "close s \<noteq> Close_log_closed" "close s \<noteq> Close_returned"
    "(LevelInfo, ''worker pool closed'', []) \<notin> set (log_out s)"
  shows "done_chan (wp (run g evs s)) = None \<and> start (run g evs s) \<noteq> Start_returned
       \<and> close (run g evs s) \<noteq> Close_log_closed \<and> close (run g evs s) \<noteq> Close_returned
       \<and> (LevelInfo, ''worker pool closed'', []) \<notin> set (log_out (run g evs s))"
  using assms
proof (induction evs arbitrary: s)
  case Nil
  then show ?case by simp
next
  case (Cons ev evs)
  from step_nil_done [OF Cons.prems, of g ev] show ?case
    by (simp add: Cons.IH)
qed

lemma run_fresh_pool:
  assumes "NewWorkerPool g = (Inr p, g')"
  shows "done_chan (wp (run g' evs (sys0 p))) = None \<and> start (run g' evs (sys0 p)) \<noteq> Start_returned
       \<and> close (run g' evs (sys0 p)) \<noteq> Close_log_closed \<and> close (run g' evs (sys0 p)) \<noteq> Close_returned
       \<and> (LevelInfo, ''worker pool closed'', []) \<notin> set (log_out (run g' evs (sys0 p)))"
  by (rule run_nil_done) (simp_all add: sys0_def NewWorkerPool_Inr(2) [OF assms])

text \<open>
  C1 does not hold of the code. The pool of \<open>NewWorkerPool\<close> has a nil \<open>done\<close> channel,
  it stays nil, and under every schedule, whatever the workers registered and however
  their \<open>Process\<close> calls end, \<open>Start\<close> has not returned: the send that would signal
  completion never takes place.
\<close>

theorem Start_never_returns:
  assumes "NewWorkerPool g = (Inr p, g')"
  shows "done_chan p = None
       \<and> done_chan (wp (run g' evs (sys0 p))) = None
       \<and> start (run g' evs (sys0 p)) \<noteq> Start_returned"
  using run_fresh_pool [OF assms, of evs] NewWorkerPool_Inr(2) [OF assms] by simp

theorem Start_never_returns_witness:
  "NewWorkerPool (snd (Init None globals0)) = (Inr (\<lparr>ctx_cancelled = False, wg = 0, logger = Some 1, workers = [], done_chan = None\<rparr>
          :: nat WorkerPool), \<lparr>instance_var = Some 0, once = True,
       store = [\<lparr>slog = slog_New (Init_handler None), handler = Init_handler None\<rparr>,
                \<lparr>slog = slog_WithGroup (slog_New (Init_handler None)) ''worker pool'',
                 handler = Init_handler None\<rparr>]\<rparr>)
   \<and> start (run \<lparr>instance_var = Some 0, once = True,
       store = [\<lparr>slog = slog_New (Init_handler None), handler = Init_handler None\<rparr>,
                \<lparr>slog = slog_WithGroup (slog_New (Init_handler None)) ''worker pool'',
                 handler = Init_handler None\<rparr>]\<rparr> [Ev_Start, Ev_Start, Ev_Start, Ev_Start, Ev_Start] (sys0 (\<lparr>ctx_cancelled = False, wg = 0, logger = Some 1, workers = [], done_chan = None\<rparr>
          :: nat WorkerPool))) = Start_send
   \<and> start (run \<lparr>instance_var = Some 0, once = True,
       store = [\<lparr>slog = slog_New (Init_handler None), handler = Init_handler None\<rparr>,
                \<lparr>slog = slog_WithGroup (slog_New (Init_handler None)) ''worker pool'',
                 handler = Init_handler None\<rparr>]\<rparr> [Ev_Start, Ev_Start, Ev_Start, Ev_Start, Ev_Start] (sys0 (\<lparr>ctx_cancelled = False, wg = 0, logger = Some 1, workers = [], done_chan = None\<rparr>
          :: nat WorkerPool)))
       \<noteq> Start_returned"
  using Start_never_returns [OF NewWorkerPool_Init_None,
      where evs = "[Ev_Start, Ev_Start, Ev_Start, Ev_Start, Ev_Start] :: nat event list"]
  by (simp add: NewWorkerPool_Init_None step_def step_Start_def sys0_def)

text \<open>
  C3 does not hold of the code. Under every schedule, \<open>Close\<close> on the pool of
  \<open>NewWorkerPool\<close> has neither passed its receive nor returned, and the record
  \<open>worker pool closed\<close> has not been handed to the logger.
\<close>

theorem Close_never_returns:
  assumes "NewWorkerPool g = (Inr p, g')"
  shows "close (run g' evs (sys0 p)) \<noteq> Close_log_closed
       \<and> close (run g' evs (sys0 p)) \<noteq> Close_returned
       \<and> (LevelInfo, ''worker pool closed'', []) \<notin> set (log_out (run g' evs (sys0 p)))"
  using run_fresh_pool [OF assms, of evs] by simp

theorem Close_never_returns_witness:
  "NewWorkerPool (snd (Init None globals0)) = (Inr (\<lparr>ctx_cancelled = False, wg = 0, logger = Some 1, workers = [], done_chan = None\<rparr>
          :: nat WorkerPool), \<lparr>instance_var = Some 0, once = True,
       store = [\<lparr>slog = slog_New (Init_handler None), handler = Init_handler None\<rparr>,
                \<lparr>slog = slog_WithGroup (slog_New (Init_handler None)) ''worker pool'',
                 handler = Init_handler None\<rparr>]\<rparr>)
   \<and> run \<lparr>instance_var = Some 0, once = True,
       store = [\<lparr>slog = slog_New (Init_handler None), handler = Init_handler None\<rparr>,
                \<lparr>slog = slog_WithGroup (slog_New (Init_handler None)) ''worker pool'',
                 handler = Init_handler None\<rparr>]\<rparr>
        [Ev_Start, Ev_Start, Ev_Start, Ev_Close, Ev_Close, Ev_Start, Ev_Close, Ev_Start, Ev_Close]
        (sys0 (\<lparr>ctx_cancelled = False, wg = 0, logger = Some 1, workers = [], done_chan = None\<rparr>
          :: nat WorkerPool))
      = \<lparr>wp = \<lparr>ctx_cancelled = True, wg = 0, logger = Some 1, workers = [], done_chan = None\<rparr>,
         start = Start_send, ranged = [], units = [], close = Close_recv,
         log_out = [(LevelInfo, ''worker pool closing'', [])], crashed = False\<rparr>"
  using Close_never_returns [OF NewWorkerPool_Init_None,
      where evs = "[Ev_Start, Ev_Start, Ev_Start, Ev_Close, Ev_Close, Ev_Start, Ev_Close,
                    Ev_Start, Ev_Close] :: nat event list"]
  by (simp add: NewWorkerPool_Init_None step_def step_Start_def step_Close_def sys0_def
        Info_def)

subsection \<open>The barrier\<close>

text \<open>
  The counter of the wait group is the number of goroutines launched and not finished,
  and \<open>Start\<close> is past \<open>Wait\<close> only when all of them have finished.
\<close>

lemma unfinished_append: "unfinished (us @ [(w, Unit_Process)]) = Suc (unfinished us)"
  by (simp add: unfinished_def)

lemma unfinished_update_same:
  "i < length us \<Longrightarrow> snd (us ! i) \<noteq> Unit_finished \<Longrightarrow> pc \<noteq> Unit_finished \<Longrightarrow>
     unfinished (us[i := (w, pc)]) = unfinished us"
  unfolding unfinished_def
proof (induction us arbitrary: i)
  case Nil
  then show ?case by simp
next
  case (Cons u us)
  then show ?case by (cases i) simp_all
qed

lemma unfinished_update_finished:
  "i < length us \<Longrightarrow> snd (us ! i) \<noteq> Unit_finished \<Longrightarrow>
     Suc (unfinished (us[i := (w, Unit_finished)])) = unfinished us"
  unfolding unfinished_def
proof (induction us arbitrary: i)
  case Nil
  then show ?case by simp
next
  case (Cons u us)
  then show ?case by (cases i) simp_all
qed

lemma unfinished_0: "unfinished us = 0 \<longleftrightarrow> (\<forall>u \<in> set us. snd u = Unit_finished)"
  by (auto simp: unfinished_def filter_empty_conv)

lemma step_unit_counter:
  assumes "wg (wp s) = int (unfinished (units s))"
  shows "wg (wp (step_unit g i s)) = int (unfinished (units (step_unit g i s)))"
proof (cases "i < length (units s) \<and> (\<exists>w oc. units s ! i = (w, Unit_after oc))")
  case False
  then show ?thesis using assms
    by (auto simp: step_unit_def split: prod.splits unit_pc.splits)
next
  case True
  then obtain w oc where i: "i < length (units s)" and u: "units s ! i = (w, Unit_after oc)"
    by blast
  from i u have same: "unfinished ((units s)[i := (w, Unit_panicked)]) = unfinished (units s)"
    by (simp add: unfinished_update_same)
  from i u have less: "Suc (unfinished ((units s)[i := (w, Unit_finished)])) = unfinished (units s)"
    by (simp add: unfinished_update_finished)
  obtain r out where b: "unit_body (logger (wp s)) g oc (log_out s) = (r, out)"
    by (cases "unit_body (logger (wp s)) g oc (log_out s)")
  obtain x out' where d: "unit_deferred (logger (wp s)) g r (wg (wp s)) out = (x, out')"
    by (cases "unit_deferred (logger (wp s)) g r (wg (wp s)) out")
  show ?thesis
  proof (cases x)
    case (Inl e)
    with i u b d same assms show ?thesis by (simp add: step_unit_def)
  next
    case (Inr n)
    with d have "n = wg (wp s) - 1"
      by (auto simp: unit_deferred_def Let_def split: prod.splits sum.splits if_splits)
    with Inr i u b d less assms show ?thesis by (simp add: step_unit_def)
  qed
qed

lemma Process_ends_counter:
  assumes "wg (wp s) = int (unfinished (units s))"
  shows "wg (wp (Process_ends i oc s)) = int (unfinished (units (Process_ends i oc s)))"
  using assms
  by (auto simp: Process_ends_def Let_def unfinished_update_same split: prod.splits unit_pc.splits)

lemma step_Start_counter:
  assumes "wg (wp s) = int (unfinished (units s))"
  shows "wg (wp (step_Start s)) = int (unfinished (units (step_Start s)))"
  using assms
  by (auto simp: step_Start_def unfinished_append split: start_pc.splits option.splits)

lemma step_Close_counter:
  assumes "wg (wp s) = int (unfinished (units s))"
  shows "wg (wp (step_Close g s)) = int (unfinished (units (step_Close g s)))"
  using assms
  by (auto simp: step_Close_def split: close_pc.splits option.splits prod.splits sum.splits)

lemma step_counter:
  assumes "wg (wp s) = int (unfinished (units s))"
  shows "wg (wp (step g ev s)) = int (unfinished (units (step g ev s)))"
  using assms step_unit_counter [OF assms] Process_ends_counter [OF assms]
    step_Start_counter [OF assms] step_Close_counter [OF assms]
  by (simp add: step_def Register_def split: event.splits)

text \<open>Past the barrier the counter is zero and stays zero.\<close>

lemma step_unit_idle:
  assumes "wg (wp s) = int (unfinished (units s))" "wg (wp s) = 0"
  shows "step_unit g i s = s"
proof -
  from assms have "\<forall>u \<in> set (units s). snd u = Unit_finished"
    by (simp add: unfinished_0)
  then have "i < length (units s) \<Longrightarrow> snd (units s ! i) = Unit_finished"
    by simp
  then show ?thesis
    by (auto simp: step_unit_def split: prod.splits unit_pc.splits)
qed

lemma Process_ends_idle:
  assumes "wg (wp s) = int (unfinished (units s))" "wg (wp s) = 0"
  shows "Process_ends i oc s = s"
proof -
  from assms have "\<forall>u \<in> set (units s). snd u = Unit_finished"
    by (simp add: unfinished_0)
  then have "i < length (units s) \<Longrightarrow> snd (units s ! i) = Unit_finished"
    by simp
  then show ?thesis
    by (auto simp: Process_ends_def split: prod.splits unit_pc.splits)
qed

lemma step_barrier:
  assumes c: "wg (wp s) = int (unfinished (units s))"
    and b: "past_Wait (start s) \<longrightarrow> wg (wp s) = 0"
  shows "past_Wait (start (step g ev s)) \<longrightarrow> wg (wp (step g ev s)) = 0"
proof (cases "crashed s")
  case True
  with b show ?thesis by (simp add: step_def)
next
  case False
  show ?thesis
  proof (cases ev)
    case (Ev_Register w)
    with False b show ?thesis by (simp add: step_def Register_def)
  next
    case Ev_Start
    with False b show ?thesis
      by (auto simp: step_def step_Start_def past_Wait_def split: start_pc.splits option.splits)
  next
    case Ev_Close
    with False b show ?thesis
      by (auto simp: step_def step_Close_def past_Wait_def
          split: close_pc.splits option.splits prod.splits sum.splits)
  next
    case (Ev_Process_ends i oc)
    have "start (Process_ends i oc s) = start s" by (rule Process_ends_nil_done)
    moreover have "wg (wp (Process_ends i oc s)) = wg (wp s)"
      by (simp add: Process_ends_def Let_def split: prod.splits unit_pc.splits)
    ultimately show ?thesis using Ev_Process_ends False b by (simp add: step_def)
  next
    case (Ev_unit i)
    show ?thesis
    proof (cases "past_Wait (start s)")
      case True
      with b c have "step_unit g i s = s" by (simp add: step_unit_idle)
      with Ev_unit False b show ?thesis by (simp add: step_def)
    next
      case f: False
      have "start (step_unit g i s) = start s" by (rule step_unit_nil_done)
      with Ev_unit False f show ?thesis by (simp add: step_def)
    qed
  qed
qed

lemma run_barrier:
  assumes "wg (wp s) = int (unfinished (units s))"
    and "past_Wait (start s) \<longrightarrow> wg (wp s) = 0"
  shows "wg (wp (run g evs s)) = int (unfinished (units (run g evs s)))
       \<and> (past_Wait (start (run g evs s)) \<longrightarrow> wg (wp (run g evs s)) = 0)"
  using assms
proof (induction evs arbitrary: s)
  case Nil
  then show ?case by simp
next
  case (Cons ev evs)
  show ?case
    unfolding run.simps
    by (rule Cons.IH [OF step_counter [OF Cons.prems(1)] step_barrier [OF Cons.prems]])
qed

lemma Start_passes_barrier_after_units:
  assumes "wg p = 0"
    and "start (run g evs (sys0 p)) = Start_send \<or> start (run g evs (sys0 p)) = Start_returned"
  shows "\<forall>u \<in> set (units (run g evs (sys0 p))). snd u = Unit_finished"
proof -
  have "wg (wp (sys0 p)) = int (unfinished (units (sys0 p)))"
    using assms(1) by (simp add: sys0_def unfinished_def)
  moreover have "past_Wait (start (sys0 p)) \<longrightarrow> wg (wp (sys0 p)) = 0"
    by (simp add: sys0_def past_Wait_def)
  ultimately have "wg (wp (run g evs (sys0 p))) = int (unfinished (units (run g evs (sys0 p))))
       \<and> (past_Wait (start (run g evs (sys0 p))) \<longrightarrow> wg (wp (run g evs (sys0 p))) = 0)"
    by (rule run_barrier)
  with assms(2) have "unfinished (units (run g evs (sys0 p))) = 0"
    by (simp add: past_Wait_def)
  then show ?thesis by (simp add: unfinished_0)
qed

subsection \<open>A goroutine after Process\<close>

text \<open>
  An error that \<open>Process\<close> returns is recorded, and the goroutine finishes: the counter
  goes down by one.
\<close>

lemma returned_error_is_contained:
  assumes "\<not> crashed s" and "i < length (units s)"
    and "units s ! i = (w, Unit_after (Returns_err e))" and "0 < wg (wp s)"
    and "deref g (logger (wp s)) = Some L"
  shows "step g (Ev_unit i) s =
           s\<lparr>wp := (wp s)\<lparr>wg := wg (wp s) - 1\<rparr>,
             units := (units s)[i := (w, Unit_finished)],
             log_out := log_out s @ [(LevelError, ''worker process err: %v'', [AError e])]\<rparr>"
  using assms
  by (simp add: step_def step_unit_def unit_body_def unit_deferred_def Error_def)

text \<open>
  C2 does not hold of the code. When \<open>Process\<close> has panicked, the deferred function
  recovers the value and hands it to \<open>Panic\<close>, which records it and panics again; this
  panic leaves the goroutine with the counter as it was, and the process has crashed,
  so that no later event changes the state: \<open>Start\<close> stays where it is.
\<close>

theorem recovered_panic_is_raised_again:
  assumes "\<not> crashed s" and "i < length (units s)"
    and "units s ! i = (w, Unit_after (Panics v))" and "v \<noteq> ANil"
    and "deref g (logger (wp s)) = Some L"
  shows "run g (Ev_unit i # evs) s =
           s\<lparr>units := (units s)[i := (w, Unit_panicked)],
             log_out := log_out s @ [(LevelError, ''panic: %v'', [v])],
             crashed := True\<rparr>"
proof -
  have "step g (Ev_unit i) s =
           s\<lparr>units := (units s)[i := (w, Unit_panicked)],
             log_out := log_out s @ [(LevelError, ''panic: %v'', [v])],
             crashed := True\<rparr>"
    using assms
    by (simp add: step_def step_unit_def unit_body_def unit_deferred_def Panic_def)
  then show ?thesis by (simp add: run_crashed)
qed

theorem recovered_panic_is_raised_again_witness:
  "run \<lparr>instance_var = Some 0, once = True,
       store = [\<lparr>slog = slog_New (Init_handler None), handler = Init_handler None\<rparr>,
                \<lparr>slog = slog_WithGroup (slog_New (Init_handler None)) ''worker pool'',
                 handler = Init_handler None\<rparr>]\<rparr>
        [Ev_Register (Some 1), Ev_Start, Ev_Start, Ev_Start,
         Ev_Process_ends 0 (Panics (AString ''boom'')), Ev_unit 0,
         Ev_Start, Ev_Start, Ev_Close]
        (sys0 (\<lparr>ctx_cancelled = False, wg = 0, logger = Some 1, workers = [], done_chan = None\<rparr>
          :: nat WorkerPool))
      = \<lparr>wp = \<lparr>ctx_cancelled = False, wg = 1, logger = Some 1, workers = [Some 1],
                done_chan = None\<rparr>,
         start = Start_Wait, ranged = [Some 1], units = [(Some 1, Unit_panicked)],
         close = Close_idle,
         log_out = [(LevelError, ''panic: %v'', [AString ''boom''])], crashed = True\<rparr>"
proof -
  let ?G = "\<lparr>instance_var = Some 0, once = True,
       store = [\<lparr>slog = slog_New (Init_handler None), handler = Init_handler None\<rparr>,
                \<lparr>slog = slog_WithGroup (slog_New (Init_handler None)) ''worker pool'',
                 handler = Init_handler None\<rparr>]\<rparr>"
  let ?S = "\<lparr>wp = \<lparr>ctx_cancelled = False, wg = 1, logger = Some 1, workers = [Some (1::nat)],
                done_chan = None\<rparr>,
         start = Start_Wait, ranged = [Some 1],
         units = [(Some 1, Unit_after (Panics (AString ''boom'')))],
         close = Close_idle, log_out = [], crashed = False\<rparr>"
  have pre: "run ?G [Ev_Register (Some 1), Ev_Start, Ev_Start, Ev_Start,
         Ev_Process_ends 0 (Panics (AString ''boom''))]
        (sys0 (\<lparr>ctx_cancelled = False, wg = 0, logger = Some 1, workers = [], done_chan = None\<rparr>
          :: nat WorkerPool)) = ?S"
    by (simp add: step_def step_Start_def Process_ends_def Register_def sys0_def)
  have post: "run ?G (Ev_unit 0 # [Ev_Start, Ev_Start, Ev_Close]) ?S =
      ?S\<lparr>units := (units ?S)[0 := (Some 1, Unit_panicked)],
         log_out := log_out ?S @ [(LevelError, ''panic: %v'', [AString ''boom''])],
         crashed := True\<rparr>"
    by (rule recovered_panic_is_raised_again [where L =
          "\<lparr>slog = slog_WithGroup (slog_New (Init_handler None)) ''worker pool'',
            handler = Init_handler None\<rparr>"])
       simp_all
  have "run ?G ([Ev_Register (Some 1), Ev_Start, Ev_Start, Ev_Start,
         Ev_Process_ends 0 (Panics (AString ''boom''))] @ (Ev_unit 0 # [Ev_Start, Ev_Start, Ev_Close]))
        (sys0 (\<lparr>ctx_cancelled = False, wg = 0, logger = Some 1, workers = [], done_chan = None\<rparr>
          :: nat WorkerPool))
      = ?S\<lparr>units := (units ?S)[0 := (Some 1, Unit_panicked)],
         log_out := log_out ?S @ [(LevelError, ''panic: %v'', [AString ''boom''])],
         crashed := True\<rparr>"
    unfolding run_append pre post ..
  then show ?thesis by simp
qed

end
